theory Spec2Isabelle
  imports Main "HOL-Library.Sublist" "HOL-Library.AList"
begin

section \<open>Python values, keyword arguments and exceptions\<close>

text \<open>
  The module \<^verbatim>\<open>airflow/providers/microsoft/azure/hooks/wasb.py\<close> is a class
  \<^verbatim>\<open>WasbHook\<close> whose methods delegate to a client object of the Azure SDK
  (\<^verbatim>\<open>BlockBlobService\<close>), forwarding the caller's \<^verbatim>\<open>**kwargs\<close>.
  Option values are the Python values that occur as keyword arguments; a
  \<^verbatim>\<open>**kwargs\<close> dictionary is a map from keyword names to values.
\<close>

datatype pyval = PyNone | PyBool bool | PyInt int | PyStr string

type_synonym kwargs = "string \<rightharpoonup> pyval"

text \<open>
  Exceptions are values. \<open>AirflowException\<close> is the one the module raises itself;
  \<open>TypeError\<close> is what a Python call raises when it cannot bind its arguments (the
  text is an abbreviation of CPython's message); \<open>SdkError\<close> stands for any exception
  raised inside the SDK client or the connection registry.
\<close>

datatype exn = AirflowException string | TypeError string | SdkError string

text \<open>
  A call \<^verbatim>\<open>f(..., k=v, **kwargs)\<close> raises \<^verbatim>\<open>TypeError\<close> when \<^verbatim>\<open>kwargs\<close>
  already has the key \<^verbatim>\<open>k\<close>; otherwise the callee receives the keywords merged.
\<close>

definition keyword :: "string \<Rightarrow> pyval \<Rightarrow> kwargs \<Rightarrow> exn + kwargs" where
  "keyword k v kw =
     (case kw k of
        Some _ \<Rightarrow> Inl (TypeError (''got multiple values for keyword argument '' @ k))
      | None \<Rightarrow> Inr (kw(k \<mapsto> v)))"

section \<open>The imported names: connection registry and SDK client\<close>

text \<open>
  \<^verbatim>\<open>BaseHook.get_connection\<close> returns a connection profile with the fields the
  module reads.
\<close>

record Connection =
  login :: pyval
  password :: pyval
  extra_dejson :: kwargs

text \<open>
  The SDK's blob object: \<^verbatim>\<open>list_blobs\<close> yields objects read through
  \<^verbatim>\<open>.name\<close>, \<^verbatim>\<open>get_blob_to_text\<close> returns one read through \<^verbatim>\<open>.content\<close>.
\<close>

record Blob =
  name :: string
  content :: string

text \<open>
  Neither \<^verbatim>\<open>airflow.hooks.base_hook\<close> nor \<^verbatim>\<open>azure.storage.blob\<close> is part of the
  module, so both are parameters of the model: a record of the functions the module
  calls, over a type \<open>'h\<close> of client handles and a type \<open>'s\<close> of states of the world
  outside the process (the storage account and the local files).
  \<^item> \<open>BlockBlobService\<close> is \<open>None\<close> when the import at the top of the module failed
    (the module then binds the name to \<^verbatim>\<open>None\<close>).
  \<^item> \<open>exists\<close>, \<open>list_blobs\<close> and \<open>get_blob_to_text\<close> are requests that read: they
    are functions of the state and return a value or raise.
  \<^item> \<open>create_blob_from_path\<close>, \<open>create_blob_from_text\<close>, \<open>get_blob_to_path\<close> and
    \<open>delete_blob\<close> change the state, also when they raise.
  The positional parameters are in the SDK's order; the second parameter of
  \<open>list_blobs\<close> is the one named \<^verbatim>\<open>prefix\<close>.
\<close>

record ('h, 's) lib =
  get_connection :: "string \<Rightarrow> exn + Connection"
  BlockBlobService :: "(kwargs \<Rightarrow> exn + 'h) option"
  exists :: "'h \<Rightarrow> 's \<Rightarrow> string \<Rightarrow> string \<Rightarrow> kwargs \<Rightarrow> exn + bool"
  list_blobs :: "'h \<Rightarrow> 's \<Rightarrow> string \<Rightarrow> string \<Rightarrow> kwargs \<Rightarrow> exn + Blob list"
  create_blob_from_path ::
    "'h \<Rightarrow> 's \<Rightarrow> string \<Rightarrow> string \<Rightarrow> string \<Rightarrow> kwargs \<Rightarrow> (exn + unit) \<times> 's"
  create_blob_from_text ::
    "'h \<Rightarrow> 's \<Rightarrow> string \<Rightarrow> string \<Rightarrow> string \<Rightarrow> kwargs \<Rightarrow> (exn + unit) \<times> 's"
  get_blob_to_path ::
    "'h \<Rightarrow> 's \<Rightarrow> string \<Rightarrow> string \<Rightarrow> string \<Rightarrow> kwargs \<Rightarrow> (exn + Blob) \<times> 's"
  get_blob_to_text :: "'h \<Rightarrow> 's \<Rightarrow> string \<Rightarrow> string \<Rightarrow> kwargs \<Rightarrow> exn + Blob"
  delete_blob :: "'h \<Rightarrow> 's \<Rightarrow> string \<Rightarrow> string \<Rightarrow> kwargs \<Rightarrow> (exn + unit) \<times> 's"

section \<open>The world: outside state and trace\<close>

text \<open>
  A call on the client, with its positional arguments in the SDK's order and the
  keywords it receives.
\<close>

datatype sdk_call =
    Exists string string kwargs
  | ListBlobs string string kwargs
  | CreateBlobFromPath string string string kwargs
  | CreateBlobFromText string string string kwargs
  | GetBlobToPath string string string kwargs
  | GetBlobToText string string kwargs
  | DeleteBlob string string kwargs

text \<open>
  The trace records, in order, what leaves the hook: every record sent to the logger
  at level info, every construction of a client, and every call on a client handle
  with the exception it raised (\<open>None\<close> when it returned).
\<close>

datatype 'h event =
    LogInfo string
  | Constructed kwargs "exn + 'h"
  | Called 'h sdk_call "exn option"

record ('h, 's) world =
  store :: 's
  trace :: "'h event list"

definition emit :: "'h event \<Rightarrow> ('h, 's) world \<Rightarrow> ('h, 's) world" where
  "emit ev w = w\<lparr>trace := trace w @ [ev]\<rparr>"

definition raised :: "exn + 'a \<Rightarrow> exn option" where
  "raised r = (case r of Inl e \<Rightarrow> Some e | Inr _ \<Rightarrow> None)"

text \<open>The events added to the trace between an earlier world and a later one.\<close>

definition since :: "('h, 's) world \<Rightarrow> ('h, 's) world \<Rightarrow> 'h event list" where
  "since w w' = drop (length (trace w)) (trace w')"

subsection \<open>Calls on the client handle\<close>

text \<open>
  \<^verbatim>\<open>self.connection.m(...)\<close>: the method of the SDK runs on the outside state and the
  call is recorded.
\<close>

definition conn_exists ::
  "('h, 's) lib \<Rightarrow> 'h \<Rightarrow> string \<Rightarrow> string \<Rightarrow> kwargs \<Rightarrow> ('h, 's) world
     \<Rightarrow> (exn + bool) \<times> ('h, 's) world" where
  "conn_exists L h c b kw w =
     (let r = exists L h (store w) c b kw
      in (r, emit (Called h (Exists c b kw) (raised r)) w))"

definition conn_list_blobs ::
  "('h, 's) lib \<Rightarrow> 'h \<Rightarrow> string \<Rightarrow> string \<Rightarrow> kwargs \<Rightarrow> ('h, 's) world
     \<Rightarrow> (exn + Blob list) \<times> ('h, 's) world" where
  "conn_list_blobs L h c p kw w =
     (let r = list_blobs L h (store w) c p kw
      in (r, emit (Called h (ListBlobs c p kw) (raised r)) w))"

definition conn_create_blob_from_path ::
  "('h, 's) lib \<Rightarrow> 'h \<Rightarrow> string \<Rightarrow> string \<Rightarrow> string \<Rightarrow> kwargs \<Rightarrow> ('h, 's) world
     \<Rightarrow> (exn + unit) \<times> ('h, 's) world" where
  "conn_create_blob_from_path L h c b path kw w =
     (let (r, s') = create_blob_from_path L h (store w) c b path kw
      in (r, emit (Called h (CreateBlobFromPath c b path kw) (raised r)) (w\<lparr>store := s'\<rparr>)))"

definition conn_create_blob_from_text ::
  "('h, 's) lib \<Rightarrow> 'h \<Rightarrow> string \<Rightarrow> string \<Rightarrow> string \<Rightarrow> kwargs \<Rightarrow> ('h, 's) world
     \<Rightarrow> (exn + unit) \<times> ('h, 's) world" where
  "conn_create_blob_from_text L h c b text kw w =
     (let (r, s') = create_blob_from_text L h (store w) c b text kw
      in (r, emit (Called h (CreateBlobFromText c b text kw) (raised r)) (w\<lparr>store := s'\<rparr>)))"

definition conn_get_blob_to_path ::
  "('h, 's) lib \<Rightarrow> 'h \<Rightarrow> string \<Rightarrow> string \<Rightarrow> string \<Rightarrow> kwargs \<Rightarrow> ('h, 's) world
     \<Rightarrow> (exn + Blob) \<times> ('h, 's) world" where
  "conn_get_blob_to_path L h c b path kw w =
     (let (r, s') = get_blob_to_path L h (store w) c b path kw
      in (r, emit (Called h (GetBlobToPath c b path kw) (raised r)) (w\<lparr>store := s'\<rparr>)))"

definition conn_get_blob_to_text ::
  "('h, 's) lib \<Rightarrow> 'h \<Rightarrow> string \<Rightarrow> string \<Rightarrow> kwargs \<Rightarrow> ('h, 's) world
     \<Rightarrow> (exn + Blob) \<times> ('h, 's) world" where
  "conn_get_blob_to_text L h c b kw w =
     (let r = get_blob_to_text L h (store w) c b kw
      in (r, emit (Called h (GetBlobToText c b kw) (raised r)) w))"

definition conn_delete_blob ::
  "('h, 's) lib \<Rightarrow> 'h \<Rightarrow> string \<Rightarrow> string \<Rightarrow> kwargs \<Rightarrow> ('h, 's) world
     \<Rightarrow> (exn + unit) \<times> ('h, 's) world" where
  "conn_delete_blob L h c b kw w =
     (let (r, s') = delete_blob L h (store w) c b kw
      in (r, emit (Called h (DeleteBlob c b kw) (raised r)) (w\<lparr>store := s'\<rparr>)))"

section \<open>WasbHook\<close>

record 'h WasbHook =
  conn_id :: string
  connection :: 'h

definition default_conn_name :: string where
  "default_conn_name = ''wasb_default''"



definition check_for_blob ::
  "('h, 's) lib \<Rightarrow> 'h WasbHook \<Rightarrow> string \<Rightarrow> string \<Rightarrow> kwargs \<Rightarrow> ('h, 's) world
     \<Rightarrow> (exn + bool) \<times> ('h, 's) world" where
  "check_for_blob L self container_name blob_name kw w =
     conn_exists L (connection self) container_name blob_name kw w"

text \<open>
  \<^verbatim>\<open>check_for_prefix\<close>: \<^verbatim>\<open>list_blobs(container_name, prefix, num_results=1, **kwargs)\<close>,
  then \<^verbatim>\<open>len(list(matches)) > 0\<close>.
\<close>

definition check_for_prefix ::
  "('h, 's) lib \<Rightarrow> 'h WasbHook \<Rightarrow> string \<Rightarrow> string \<Rightarrow> kwargs \<Rightarrow> ('h, 's) world
     \<Rightarrow> (exn + bool) \<times> ('h, 's) world" where
  "check_for_prefix L self container_name pfx kw w =
     (case keyword ''num_results'' (PyInt 1) kw of
        Inl e \<Rightarrow> (Inl e, w)
      | Inr kw' \<Rightarrow>
          (case conn_list_blobs L (connection self) container_name pfx kw' w of
             (Inl e, w') \<Rightarrow> (Inl e, w')
           | (Inr matches, w') \<Rightarrow> (Inr (length matches > 0), w')))"

definition get_blobs_list ::
  "('h, 's) lib \<Rightarrow> 'h WasbHook \<Rightarrow> string \<Rightarrow> string \<Rightarrow> kwargs \<Rightarrow> ('h, 's) world
     \<Rightarrow> (exn + Blob list) \<times> ('h, 's) world" where
  "get_blobs_list L self container_name pfx kw w =
     conn_list_blobs L (connection self) container_name pfx kw w"

definition load_file ::
  "('h, 's) lib \<Rightarrow> 'h WasbHook \<Rightarrow> string \<Rightarrow> string \<Rightarrow> string \<Rightarrow> kwargs \<Rightarrow> ('h, 's) world
     \<Rightarrow> (exn + unit) \<times> ('h, 's) world" where
  "load_file L self file_path container_name blob_name kw w =
     conn_create_blob_from_path L (connection self) container_name blob_name file_path kw w"

definition load_string ::
  "('h, 's) lib \<Rightarrow> 'h WasbHook \<Rightarrow> string \<Rightarrow> string \<Rightarrow> string \<Rightarrow> kwargs \<Rightarrow> ('h, 's) world
     \<Rightarrow> (exn + unit) \<times> ('h, 's) world" where
  "load_string L self string_data container_name blob_name kw w =
     conn_create_blob_from_text L (connection self) container_name blob_name string_data kw w"

definition get_file ::
  "('h, 's) lib \<Rightarrow> 'h WasbHook \<Rightarrow> string \<Rightarrow> string \<Rightarrow> string \<Rightarrow> kwargs \<Rightarrow> ('h, 's) world
     \<Rightarrow> (exn + Blob) \<times> ('h, 's) world" where
  "get_file L self file_path container_name blob_name kw w =
     conn_get_blob_to_path L (connection self) container_name blob_name file_path kw w"

definition read_file ::
  "('h, 's) lib \<Rightarrow> 'h WasbHook \<Rightarrow> string \<Rightarrow> string \<Rightarrow> kwargs \<Rightarrow> ('h, 's) world
     \<Rightarrow> (exn + string) \<times> ('h, 's) world" where
  "read_file L self container_name blob_name kw w =
     (case conn_get_blob_to_text L (connection self) container_name blob_name kw w of
        (Inl e, w') \<Rightarrow> (Inl e, w')
      | (Inr blob, w') \<Rightarrow> (Inr (content blob), w'))"

subsection \<open>delete_file\<close>

text \<open>
  The first statement of \<^verbatim>\<open>delete_file\<close> computes the list \<^verbatim>\<open>blobs_to_delete\<close>:
  with \<^verbatim>\<open>is_prefix\<close>, the names of \<^verbatim>\<open>list_blobs(container_name, prefix=blob_name, **kwargs)\<close>;
  otherwise \<^verbatim>\<open>[blob_name]\<close> or \<^verbatim>\<open>[]\<close> after \<^verbatim>\<open>self.check_for_blob(container_name, blob_name)\<close>,
  which is called without the keywords.
\<close>

definition blobs_to_delete ::
  "('h, 's) lib \<Rightarrow> 'h WasbHook \<Rightarrow> string \<Rightarrow> string \<Rightarrow> bool \<Rightarrow> kwargs \<Rightarrow> ('h, 's) world
     \<Rightarrow> (exn + string list) \<times> ('h, 's) world" where
  "blobs_to_delete L self container_name blob_name is_prefix kw w =
     (if is_prefix then
        (case kw ''prefix'' of
           Some _ \<Rightarrow> (Inl (TypeError ''got multiple values for keyword argument prefix''), w)
         | None \<Rightarrow>
             (case conn_list_blobs L (connection self) container_name blob_name kw w of
                (Inl e, w') \<Rightarrow> (Inl e, w')
              | (Inr blobs, w') \<Rightarrow> (Inr (map name blobs), w')))
      else
        (case check_for_blob L self container_name blob_name Map.empty w of
           (Inl e, w') \<Rightarrow> (Inl e, w')
         | (Inr found, w') \<Rightarrow> (Inr (if found then [blob_name] else []), w')))"

text \<open>
  The loop: for each name, \<^verbatim>\<open>self.log.info("Deleting blob: %s", blob_uri)\<close>, then
  \<^verbatim>\<open>delete_blob(container_name, blob_uri, delete_snapshots='include', **kwargs)\<close>.
  An exception leaves the loop at once.
\<close>

definition deleting :: "string \<Rightarrow> string" where
  "deleting blob_uri = ''Deleting blob: '' @ blob_uri"

fun delete_loop ::
  "('h, 's) lib \<Rightarrow> 'h WasbHook \<Rightarrow> string \<Rightarrow> kwargs \<Rightarrow> string list \<Rightarrow> ('h, 's) world
     \<Rightarrow> (exn + unit) \<times> ('h, 's) world" where
  "delete_loop L self container_name kw [] w = (Inr (), w)"
| "delete_loop L self container_name kw (blob_uri # rest) w =
     (let w1 = emit (LogInfo (deleting blob_uri)) w in
      case keyword ''delete_snapshots'' (PyStr ''include'') kw of
        Inl e \<Rightarrow> (Inl e, w1)
      | Inr kw' \<Rightarrow>
          (case conn_delete_blob L (connection self) container_name blob_uri kw' w1 of
             (Inl e, w2) \<Rightarrow> (Inl e, w2)
           | (Inr _, w2) \<Rightarrow> delete_loop L self container_name kw rest w2))"

definition delete_file ::
  "('h, 's) lib \<Rightarrow> 'h WasbHook \<Rightarrow> string \<Rightarrow> string \<Rightarrow> bool \<Rightarrow> bool \<Rightarrow> kwargs
     \<Rightarrow> ('h, 's) world \<Rightarrow> (exn + unit) \<times> ('h, 's) world" where
  "delete_file L self container_name blob_name is_prefix ignore_if_missing kw w =
     (case blobs_to_delete L self container_name blob_name is_prefix kw w of
        (Inl e, w1) \<Rightarrow> (Inl e, w1)
      | (Inr bs, w1) \<Rightarrow>
          if \<not> ignore_if_missing \<and> length bs = 0
          then (Inl (AirflowException (''Blob(s) not found: '' @ blob_name)), w1)
          else delete_loop L self container_name kw bs w1)"

section \<open>Sequences of operations on one hook\<close>





section \<open>Reading the history of operations\<close>





section \<open>Reading the trace\<close>

text \<open>The records sent to the logger, in order.\<close>

fun log_record :: "'h event \<Rightarrow> string option" where
  "log_record (LogInfo m) = Some m"
| "log_record _ = None"

definition logs :: "'h event list \<Rightarrow> string list" where
  "logs evs = List.map_filter log_record evs"

text \<open>
  The \<^verbatim>\<open>delete_blob\<close> calls made, in order: container, blob name and the keywords
  the SDK received.
\<close>

fun deletion :: "'h event \<Rightarrow> (string \<times> string \<times> kwargs) option" where
  "deletion (Called h (DeleteBlob c b kw) r) = Some (c, b, kw)"
| "deletion _ = None"

definition deletions :: "'h event list \<Rightarrow> (string \<times> string \<times> kwargs) list" where
  "deletions evs = List.map_filter deletion evs"

text \<open>
  The keywords \<^verbatim>\<open>delete_blob\<close> receives from
  \<^verbatim>\<open>delete_blob(container_name, blob_uri, delete_snapshots='include', **kwargs)\<close>.
\<close>

definition included :: "kwargs \<Rightarrow> kwargs" where
  "included kw = kw(''delete_snapshots'' \<mapsto> PyStr ''include'')"

text \<open>
  One info record and then one \<^verbatim>\<open>delete_blob\<close> call that returned, for each name of a
  list in order: what the loop of \<^verbatim>\<open>delete_file\<close> does on entries it gets through.
\<close>

definition logged_deletions :: "'h \<Rightarrow> string \<Rightarrow> kwargs \<Rightarrow> string list \<Rightarrow> 'h event list" where
  "logged_deletions h c kw ds =
     concat (map (\<lambda>d. [LogInfo (deleting d),
       Called h (DeleteBlob c d (kw(''delete_snapshots'' \<mapsto> PyStr ''include''))) None]) ds)"

text \<open>
  The events follow a list of names in order, and each name has its log record
  immediately before its \<^verbatim>\<open>delete_blob\<close> call; the events may stop early, after a
  call or after a log record.
\<close>

fun logged_first :: "string list \<Rightarrow> 'h event list \<Rightarrow> bool" where
  "logged_first ds [] = True"
| "logged_first (d # ds) [LogInfo m] = (m = deleting d)"
| "logged_first (d # ds) (LogInfo m # Called h (DeleteBlob c b kw) r # evs) =
     (m = deleting d \<and> b = d \<and> logged_first ds evs)"
| "logged_first ds evs = False"

text \<open>An event that is a call on the handle \<open>h\<close>, or a log record; not a construction.\<close>

fun on_handle :: "'h \<Rightarrow> 'h event \<Rightarrow> bool" where
  "on_handle h (LogInfo m) = True"
| "on_handle h (Constructed kw r) = False"
| "on_handle h (Called h' call r) = (h' = h)"

section \<open>A reference client\<close>

text \<open>
  Modelled from the spec: the Blob Storage SDK client and the connection registry,
  which the module imports and which are not part of it. A storage account holds
  containers of named blobs; a blob is an opaque named object in a container; a prefix
  matches the leading portion of blob names; a listing yields one entry per matching
  blob and honours a result-count cap; an upload creates or overwrites the blob; a
  download of a missing blob and a deletion of a missing blob fail. The state is the
  stored blobs, as an association list keyed by (container, blob name), and the local
  files. Keywords other than the cap have no effect in this client.
\<close>

record mem =
  blobs :: "((string \<times> string) \<times> string) list"
  files :: "string \<rightharpoonup> string"

text \<open>
  Modelled from the spec: the connection registry, which is missing from the module. An
  unknown identifier fails; a known one gives its profile.
\<close>

definition mem_get_connection :: "(string \<rightharpoonup> Connection) \<Rightarrow> string \<Rightarrow> exn + Connection" where
  "mem_get_connection registry cid =
     (case registry cid of
        None \<Rightarrow> Inl (AirflowException (''The conn_id is not defined: '' @ cid))
      | Some conn \<Rightarrow> Inr conn)"

text \<open>
  Modelled from the spec: the constructor of the SDK client, which is missing from the
  module. The handle of the reference client is the account name it was built for; a profile
  without one is rejected.
\<close>

definition mem_BlockBlobService :: "kwargs \<Rightarrow> exn + string" where
  "mem_BlockBlobService kw =
     (case kw ''account_name'' of
        Some (PyStr account) \<Rightarrow> Inr account
      | _ \<Rightarrow> Inl (SdkError ''ValueError: an account name is required''))"

text \<open>
  Modelled from the spec: \<^verbatim>\<open>exists\<close> of the SDK client, which is
  missing from the module. Whether a blob is stored under the reference.
\<close>

definition mem_exists :: "string \<Rightarrow> mem \<Rightarrow> string \<Rightarrow> string \<Rightarrow> kwargs \<Rightarrow> exn + bool" where
  "mem_exists h s c b kw = Inr (map_of (blobs s) (c, b) \<noteq> None)"

text \<open>
  Modelled from the spec: the names a listing of the SDK client yields, one for each blob of
  the container whose name starts with the prefix.
\<close>

definition names_under :: "mem \<Rightarrow> string \<Rightarrow> string \<Rightarrow> string list" where
  "names_under s c p =
     remdups (map (\<lambda>kv. snd (fst kv))
       (filter (\<lambda>kv. fst (fst kv) = c \<and> prefix p (snd (fst kv))) (blobs s)))"

text \<open>
  Modelled from the spec: the result-count cap of the SDK's listing
  (\<^verbatim>\<open>num_results\<close>), which keeps the first entries.
\<close>

definition capped :: "kwargs \<Rightarrow> 'a list \<Rightarrow> 'a list" where
  "capped kw xs = (case kw ''num_results'' of Some (PyInt n) \<Rightarrow> take (nat n) xs | _ \<Rightarrow> xs)"

text \<open>
  Modelled from the spec: \<^verbatim>\<open>list_blobs\<close> of the SDK client, which is
  missing from the module.
\<close>

definition mem_list_blobs ::
  "string \<Rightarrow> mem \<Rightarrow> string \<Rightarrow> string \<Rightarrow> kwargs \<Rightarrow> exn + Blob list" where
  "mem_list_blobs h s c p kw =
     Inr (capped kw (map (\<lambda>n. \<lparr>name = n, content = []\<rparr>) (names_under s c p)))"

text \<open>
  Modelled from the spec: \<^verbatim>\<open>create_blob_from_text\<close> of the SDK
  client, which is missing from the module. The blob is created or overwritten.
\<close>

definition mem_create_blob_from_text ::
  "string \<Rightarrow> mem \<Rightarrow> string \<Rightarrow> string \<Rightarrow> string \<Rightarrow> kwargs \<Rightarrow> (exn + unit) \<times> mem" where
  "mem_create_blob_from_text h s c b text kw =
     (Inr (), s\<lparr>blobs := AList.update (c, b) text (blobs s)\<rparr>)"

text \<open>
  Modelled from the spec: \<^verbatim>\<open>create_blob_from_path\<close> of the SDK
  client, which is missing from the module. It uploads the content of a local file, and
  fails when there is no such file.
\<close>

definition mem_create_blob_from_path ::
  "string \<Rightarrow> mem \<Rightarrow> string \<Rightarrow> string \<Rightarrow> string \<Rightarrow> kwargs \<Rightarrow> (exn + unit) \<times> mem" where
  "mem_create_blob_from_path h s c b path kw =
     (case files s path of
        None \<Rightarrow> (Inl (SdkError ''FileNotFoundError''), s)
      | Some text \<Rightarrow> (Inr (), s\<lparr>blobs := AList.update (c, b) text (blobs s)\<rparr>))"

text \<open>
  Modelled from the spec: \<^verbatim>\<open>get_blob_to_text\<close> of the SDK client,
  which is missing from the module. It fails on a blob that is not stored.
\<close>

definition mem_get_blob_to_text ::
  "string \<Rightarrow> mem \<Rightarrow> string \<Rightarrow> string \<Rightarrow> kwargs \<Rightarrow> exn + Blob" where
  "mem_get_blob_to_text h s c b kw =
     (case map_of (blobs s) (c, b) of
        None \<Rightarrow> Inl (SdkError ''The specified blob does not exist'')
      | Some text \<Rightarrow> Inr \<lparr>name = b, content = text\<rparr>)"

text \<open>
  Modelled from the spec: \<^verbatim>\<open>get_blob_to_path\<close> of the SDK client,
  which is missing from the module. It writes the content to a local file.
\<close>

definition mem_get_blob_to_path ::
  "string \<Rightarrow> mem \<Rightarrow> string \<Rightarrow> string \<Rightarrow> string \<Rightarrow> kwargs \<Rightarrow> (exn + Blob) \<times> mem" where
  "mem_get_blob_to_path h s c b path kw =
     (case map_of (blobs s) (c, b) of
        None \<Rightarrow> (Inl (SdkError ''The specified blob does not exist''), s)
      | Some text \<Rightarrow> (Inr \<lparr>name = b, content = []\<rparr>, s\<lparr>files := (files s)(path \<mapsto> text)\<rparr>))"

text \<open>
  Modelled from the spec: \<^verbatim>\<open>delete_blob\<close> of the SDK client, which is
  missing from the module. It fails on a blob that is not stored.
\<close>

definition mem_delete_blob ::
  "string \<Rightarrow> mem \<Rightarrow> string \<Rightarrow> string \<Rightarrow> kwargs \<Rightarrow> (exn + unit) \<times> mem" where
  "mem_delete_blob h s c b kw =
     (if map_of (blobs s) (c, b) \<noteq> None
      then (Inr (), s\<lparr>blobs := AList.delete (c, b) (blobs s)\<rparr>)
      else (Inl (SdkError ''The specified blob does not exist''), s))"

text \<open>
  Modelled from the spec: the imported names as the reference client provides them.
\<close>

definition mem_lib :: "(string \<rightharpoonup> Connection) \<Rightarrow> (string, mem) lib" where
  "mem_lib registry =
     \<lparr>get_connection = mem_get_connection registry,
      BlockBlobService = Some mem_BlockBlobService,
      exists = mem_exists,
      list_blobs = mem_list_blobs,
      create_blob_from_path = mem_create_blob_from_path,
      create_blob_from_text = mem_create_blob_from_text,
      get_blob_to_path = mem_get_blob_to_path,
      get_blob_to_text = mem_get_blob_to_text,
      delete_blob = mem_delete_blob\<rparr>"

text \<open>A storage account with no blob in it, and nothing done yet.\<close>

definition fresh :: "(string \<rightharpoonup> string) \<Rightarrow> (string, mem) world" where
  "fresh fs = \<lparr>store = \<lparr>blobs = [], files = fs\<rparr>, trace = []\<rparr>"

section \<open>Example values\<close>

text \<open>
  A registry with the default connection, the hook constructed from it, a storage
  account with three blobs in container \<open>c\<close>, and a client on which the deletion of
  one blob is refused (the blob is leased).
\<close>

definition example_registry :: "string \<rightharpoonup> Connection" where
  "example_registry =
     [''wasb_default'' \<mapsto>
        \<lparr>login = PyStr ''account'', password = PyStr ''key'', extra_dejson = Map.empty\<rparr>]"

definition example_hook :: "string WasbHook" where
  "example_hook = \<lparr>conn_id = ''wasb_default'', connection = ''account''\<rparr>"

definition example_world :: "(string, mem) world" where
  "example_world =
     \<lparr>store = \<lparr>blobs = [((''c'', ''a/1.txt''), ''hello''), ((''c'', ''a/2.txt''), ''world''),
                         ((''c'', ''b.txt''), ''other'')],
               files = Map.empty\<rparr>,
      trace = []\<rparr>"

definition leased_lib :: "string \<Rightarrow> (string, mem) lib" where
  "leased_lib leased =
     (mem_lib example_registry)
       \<lparr>delete_blob := (\<lambda>h s c b kw.
           if b = leased then (Inl (SdkError ''There is currently a lease on the blob''), s)
           else mem_delete_blob h s c b kw)\<rparr>"

section \<open>Lemmas on the trace and on single calls\<close>

lemma trace_emit: "trace (emit ev w) = trace w @ [ev]"
  by (simp add: emit_def)

lemma store_emit: "store (emit ev w) = store w"
  by (simp add: emit_def)

lemma since_self: "since w w = []"
  by (simp add: since_def)

lemma since_append: "trace w' = trace w @ evs \<Longrightarrow> since w w' = evs"
  by (simp add: since_def)

lemma keyword_Inr: "keyword k v kw = Inr kw' \<Longrightarrow> kw k = None \<and> kw' = kw(k \<mapsto> v)"
  by (auto simp: keyword_def split: option.splits)

lemma keyword_None: "kw k = None \<Longrightarrow> keyword k v kw = Inr (kw(k \<mapsto> v))"
  by (simp add: keyword_def)

lemma raised_simps: "raised (Inl e) = Some e" "raised (Inr x) = None"
  by (simp_all add: raised_def)

lemma deletions_simps:
  "deletions [] = []"
  "deletions (LogInfo m # evs) = deletions evs"
  "deletions (Constructed kw r # evs) = deletions evs"
  "deletions (Called h (DeleteBlob c b kw) x # evs) = (c, b, kw) # deletions evs"
  "deletions (Called h (Exists c b kw) x # evs) = deletions evs"
  "deletions (Called h (ListBlobs c b kw) x # evs) = deletions evs"
  "deletions (Called h (CreateBlobFromPath c b p kw) x # evs) = deletions evs"
  "deletions (Called h (CreateBlobFromText c b p kw) x # evs) = deletions evs"
  "deletions (Called h (GetBlobToPath c b p kw) x # evs) = deletions evs"
  "deletions (Called h (GetBlobToText c b kw) x # evs) = deletions evs"
  by (simp_all add: deletions_def List.map_filter_simps)

lemma deletions_append: "deletions (xs @ ys) = deletions xs @ deletions ys"
  by (simp add: deletions_def List.map_filter_def)

lemma logs_simps:
  "logs [] = []"
  "logs (LogInfo m # evs) = m # logs evs"
  "logs (Constructed kw r # evs) = logs evs"
  "logs (Called h call x # evs) = logs evs"
  by (simp_all add: logs_def List.map_filter_simps)



lemma conn_get_blob_to_text_simps:
  "fst (conn_get_blob_to_text L h c b kw w) = get_blob_to_text L h (store w) c b kw"
  "snd (conn_get_blob_to_text L h c b kw w) =
     emit (Called h (GetBlobToText c b kw) (raised (get_blob_to_text L h (store w) c b kw))) w"
  by (simp_all add: conn_get_blob_to_text_def Let_def)

lemma conn_delete_blob_simps:
  "fst (conn_delete_blob L h c b kw w) = fst (delete_blob L h (store w) c b kw)"
  "trace (snd (conn_delete_blob L h c b kw w)) =
     trace w @ [Called h (DeleteBlob c b kw) (raised (fst (delete_blob L h (store w) c b kw)))]"
  "store (snd (conn_delete_blob L h c b kw w)) = snd (delete_blob L h (store w) c b kw)"
  by (simp_all add: conn_delete_blob_def emit_def split: prod.splits)




lemma conn_delete_blob_result:
  "conn_delete_blob L h c b kw w = (r, w') \<Longrightarrow>
     r = fst (delete_blob L h (store w) c b kw)
     \<and> trace w' = trace w @ [Called h (DeleteBlob c b kw) (raised r)]
     \<and> store w' = snd (delete_blob L h (store w) c b kw)"
  by (auto simp add: conn_delete_blob_def emit_def split: prod.splits)

text \<open>The loop on a concatenation: the second part runs only if the first returned.\<close>

lemma delete_loop_append:
  "delete_loop L self c kw (xs @ ys) w =
     (case delete_loop L self c kw xs w of
        (Inl e, w') \<Rightarrow> (Inl e, w')
      | (Inr u, w') \<Rightarrow> delete_loop L self c kw ys w')"
  by (induction xs arbitrary: w) (auto simp: Let_def split: sum.splits prod.splits)

lemma delete_loop_events:
  "\<exists>evs. trace (snd (delete_loop L self c kw ds w)) = trace w @ evs
       \<and> logged_first ds evs
       \<and> list_all (on_handle (connection self)) evs
       \<and> list_all (\<lambda>x. fst x = c \<and> snd (snd x) = included kw) (deletions evs)
       \<and> (kw ''delete_snapshots'' \<noteq> None \<longrightarrow> deletions evs = [])
       \<and> (fst (delete_loop L self c kw ds w) = Inr () \<longrightarrow>
            evs = concat (map (\<lambda>d. [LogInfo (deleting d),
                     Called (connection self) (DeleteBlob c d (included kw)) None]) ds))"
proof (induction ds arbitrary: w)
  case Nil
  show ?case by (simp add: deletions_simps)
next
  case (Cons d ds)
  let ?w1 = "emit (LogInfo (deleting d)) w"
  show ?case
  proof (cases "keyword ''delete_snapshots'' (PyStr ''include'') kw")
    case (Inl e)
    then have "delete_loop L self c kw (d # ds) w = (Inl e, ?w1)"
      by (simp add: Let_def)
    then show ?thesis
      by (intro exI[of _ "[LogInfo (deleting d)]"]) (simp add: trace_emit deletions_simps)
  next
    case (Inr kw')
    then have kw': "kw' = included kw" and free: "kw ''delete_snapshots'' = None"
      by (auto dest: keyword_Inr simp: included_def)
    obtain r w2 where del: "conn_delete_blob L (connection self) c d kw' ?w1 = (r, w2)"
      by (cases "conn_delete_blob L (connection self) c d kw' ?w1") auto
    have tr2: "trace w2 = trace w @ [LogInfo (deleting d),
                 Called (connection self) (DeleteBlob c d kw') (raised r)]"
      using conn_delete_blob_result[OF del] by (simp add: trace_emit)
    show ?thesis
    proof (cases r)
      case (Inl e)
      then have "delete_loop L self c kw (d # ds) w = (Inl e, w2)"
        using Inr del by (simp add: Let_def)
      then show ?thesis
        using tr2 Inl kw' free
        by (intro exI[of _ "[LogInfo (deleting d),
              Called (connection self) (DeleteBlob c d kw') (raised r)]"])
           (simp add: deletions_simps)
    next
      case r: (Inr u)
      then have eq: "delete_loop L self c kw (d # ds) w = delete_loop L self c kw ds w2"
        using Inr del by (simp add: Let_def)
      from Cons.IH[of w2] obtain evs where
        evs: "trace (snd (delete_loop L self c kw ds w2)) = trace w2 @ evs"
          "logged_first ds evs" "list_all (on_handle (connection self)) evs"
          "list_all (\<lambda>x. fst x = c \<and> snd (snd x) = included kw) (deletions evs)"
          "fst (delete_loop L self c kw ds w2) = Inr () \<longrightarrow>
            evs = concat (map (\<lambda>d. [LogInfo (deleting d),
                     Called (connection self) (DeleteBlob c d (included kw)) None]) ds)"
        by blast
      show ?thesis
        using evs tr2 r kw' free unfolding eq
        by (intro exI[of _ "LogInfo (deleting d) #
              Called (connection self) (DeleteBlob c d kw') None # evs"])
           (simp add: deletions_simps raised_simps)
    qed
  qed
qed


text \<open>
  A loop that raises got through some entries and stopped at the next one, after its
  log record (the call expression raised) or after its \<^verbatim>\<open>delete_blob\<close> call raised.
\<close>

lemma delete_loop_raises:
  assumes "fst (delete_loop L self c kw ds w) = Inl e"
  shows "\<exists>pre d post. ds = pre @ d # post \<and>
           (trace (snd (delete_loop L self c kw ds w)) =
              trace w @ logged_deletions (connection self) c kw pre @ [LogInfo (deleting d)]
            \<or> trace (snd (delete_loop L self c kw ds w)) =
              trace w @ logged_deletions (connection self) c kw pre @
                [LogInfo (deleting d),
                 Called (connection self)
                   (DeleteBlob c d (kw(''delete_snapshots'' \<mapsto> PyStr ''include''))) (Some e)])"
  using assms
proof (induction ds arbitrary: w)
  case Nil
  then show ?case by simp
next
  case (Cons d ds)
  let ?w1 = "emit (LogInfo (deleting d)) w"
  show ?case
  proof (cases "keyword ''delete_snapshots'' (PyStr ''include'') kw")
    case (Inl e')
    then have "delete_loop L self c kw (d # ds) w = (Inl e', ?w1)"
      by (simp add: Let_def)
    then have "trace (snd (delete_loop L self c kw (d # ds) w)) =
        trace w @ logged_deletions (connection self) c kw [] @ [LogInfo (deleting d)]"
      by (simp add: trace_emit logged_deletions_def)
    then show ?thesis by blast
  next
    case (Inr kw')
    then have kw': "kw' = kw(''delete_snapshots'' \<mapsto> PyStr ''include'')"
      by (auto dest: keyword_Inr)
    obtain r w2 where del: "conn_delete_blob L (connection self) c d kw' ?w1 = (r, w2)"
      by (cases "conn_delete_blob L (connection self) c d kw' ?w1") auto
    have tr2: "trace w2 = trace w @ [LogInfo (deleting d),
                 Called (connection self) (DeleteBlob c d kw') (raised r)]"
      using conn_delete_blob_result[OF del] by (simp add: trace_emit)
    show ?thesis
    proof (cases r)
      case (Inl e')
      then have res: "delete_loop L self c kw (d # ds) w = (Inl e', w2)"
        using Inr del by (simp add: Let_def)
      then have "e' = e" using Cons.prems by simp
      then have "trace (snd (delete_loop L self c kw (d # ds) w)) =
          trace w @ logged_deletions (connection self) c kw [] @
            [LogInfo (deleting d),
             Called (connection self)
               (DeleteBlob c d (kw(''delete_snapshots'' \<mapsto> PyStr ''include''))) (Some e)]"
        using res tr2 Inl kw' by (simp add: logged_deletions_def raised_def)
      then show ?thesis by blast
    next
      case r: (Inr u)
      then have eq: "delete_loop L self c kw (d # ds) w = delete_loop L self c kw ds w2"
        using Inr del by (simp add: Let_def)
      then have "fst (delete_loop L self c kw ds w2) = Inl e"
        using Cons.prems by simp
      from Cons.IH[OF this] obtain pre d' post where ds: "ds = pre @ d' # post"
        and t: "trace (snd (delete_loop L self c kw ds w2)) =
              trace w2 @ logged_deletions (connection self) c kw pre @ [LogInfo (deleting d')]
            \<or> trace (snd (delete_loop L self c kw ds w2)) =
              trace w2 @ logged_deletions (connection self) c kw pre @
                [LogInfo (deleting d'),
                 Called (connection self)
                   (DeleteBlob c d' (kw(''delete_snapshots'' \<mapsto> PyStr ''include''))) (Some e)]"
        by blast
      have step: "trace w2 @ logged_deletions (connection self) c kw pre =
                  trace w @ logged_deletions (connection self) c kw (d # pre)"
        using tr2 r kw' by (simp add: logged_deletions_def raised_def)
      have "d # ds = (d # pre) @ d' # post"
        using ds by simp
      moreover have "trace (snd (delete_loop L self c kw (d # ds) w)) =
              trace w @ logged_deletions (connection self) c kw (d # pre) @ [LogInfo (deleting d')]
            \<or> trace (snd (delete_loop L self c kw (d # ds) w)) =
              trace w @ logged_deletions (connection self) c kw (d # pre) @
                [LogInfo (deleting d'),
                 Called (connection self)
                   (DeleteBlob c d' (kw(''delete_snapshots'' \<mapsto> PyStr ''include''))) (Some e)]"
        unfolding eq using t step by (metis append.assoc)
      ultimately show ?thesis by blast
    qed
  qed
qed

lemma blobs_to_delete_events:
  "\<exists>evs. trace (snd (blobs_to_delete L self c b is_prefix kw w)) = trace w @ evs
       \<and> list_all (on_handle (connection self)) evs
       \<and> deletions evs = [] \<and> logs evs = []"
  and blobs_to_delete_store:
  "store (snd (blobs_to_delete L self c b is_prefix kw w)) = store w"
  by (auto simp: blobs_to_delete_def check_for_blob_def conn_exists_def conn_list_blobs_def
        Let_def emit_def deletions_simps logs_simps split: option.splits sum.splits)

lemma delete_file_events:
  "\<exists>evs. trace (snd (delete_file L self c b is_prefix ign kw w)) = trace w @ evs
       \<and> list_all (on_handle (connection self)) evs
       \<and> list_all (\<lambda>x. fst x = c \<and> snd (snd x) = included kw) (deletions evs)
       \<and> (kw ''delete_snapshots'' \<noteq> None \<longrightarrow> deletions evs = [])"
proof -
  obtain r w1 where btd: "blobs_to_delete L self c b is_prefix kw w = (r, w1)"
    by (cases "blobs_to_delete L self c b is_prefix kw w") auto
  from blobs_to_delete_events[of L self c b is_prefix kw w] btd obtain evs1 where
    evs1: "trace w1 = trace w @ evs1" "list_all (on_handle (connection self)) evs1"
      "deletions evs1 = []"
    by auto
  show ?thesis
  proof (cases r)
    case (Inl e)
    then have "delete_file L self c b is_prefix ign kw w = (Inl e, w1)"
      using btd by (simp add: delete_file_def)
    then show ?thesis using evs1 by auto
  next
    case (Inr ds)
    show ?thesis
    proof (cases "\<not> ign \<and> length ds = 0")
      case True
      then have "snd (delete_file L self c b is_prefix ign kw w) = w1"
        using btd Inr by (simp add: delete_file_def)
      then show ?thesis using evs1 by auto
    next
      case False
      then have eq: "delete_file L self c b is_prefix ign kw w = delete_loop L self c kw ds w1"
        using btd Inr by (auto simp add: delete_file_def)
      from delete_loop_events[of L self c kw ds w1] obtain evs2 where
        evs2: "trace (snd (delete_loop L self c kw ds w1)) = trace w1 @ evs2"
          "list_all (on_handle (connection self)) evs2"
          "list_all (\<lambda>x. fst x = c \<and> snd (snd x) = included kw) (deletions evs2)"
          "kw ''delete_snapshots'' \<noteq> None \<longrightarrow> deletions evs2 = []"
        by blast
      show ?thesis
        unfolding eq using evs1 evs2
        by (intro exI[of _ "evs1 @ evs2"]) (simp add: deletions_append)
    qed
  qed
qed



lemmas mem_defs = mem_lib_def mem_exists_def mem_list_blobs_def names_under_def capped_def
  mem_create_blob_from_text_def mem_create_blob_from_path_def mem_get_blob_to_text_def
  mem_get_blob_to_path_def mem_delete_blob_def mem_get_connection_def mem_BlockBlobService_def

lemmas hook_defs = check_for_blob_def check_for_prefix_def get_blobs_list_def load_file_def
  load_string_def get_file_def read_file_def blobs_to_delete_def delete_file_def
  conn_exists_def conn_list_blobs_def conn_create_blob_from_path_def
  conn_create_blob_from_text_def conn_get_blob_to_path_def conn_get_blob_to_text_def
  conn_delete_blob_def emit_def raised_def keyword_def Let_def since_def deleting_def

lemmas example_defs = example_registry_def example_hook_def example_world_def

section \<open>Lemmas on the reference client\<close>

lemma map_of_None_iff: "(map_of al k = None) = (k \<notin> fst ` set al)"
  by (simp add: map_of_eq_None_iff)

lemma set_names_under:
  "set (names_under s c p) = {n. map_of (blobs s) (c, n) \<noteq> None \<and> prefix p n}"
  by (force simp: names_under_def map_of_None_iff)

lemma distinct_names_under: "distinct (names_under s c p)"
  by (simp add: names_under_def)

lemma mem_delete_loop:
  assumes "distinct ds" and "\<forall>d \<in> set ds. map_of (blobs (store w)) (c, d) \<noteq> None"
    and "kw ''delete_snapshots'' = None"
  shows "fst (delete_loop (mem_lib reg) self c kw ds w) = Inr ()
       \<and> map_of (blobs (store (snd (delete_loop (mem_lib reg) self c kw ds w)))) =
           (\<lambda>k. if fst k = c \<and> snd k \<in> set ds then None else map_of (blobs (store w)) k)"
  using assms(1,2)
proof (induction ds arbitrary: w)
  case Nil
  then show ?case by simp
next
  case (Cons d ds)
  let ?w1 = "emit (LogInfo (deleting d)) w"
  let ?kw' = "kw(''delete_snapshots'' \<mapsto> PyStr ''include'')"
  have k: "keyword ''delete_snapshots'' (PyStr ''include'') kw = Inr ?kw'"
    using assms(3) by (rule keyword_None)
  obtain r w2 where del: "conn_delete_blob (mem_lib reg) (connection self) c d ?kw' ?w1 = (r, w2)"
    by (cases "conn_delete_blob (mem_lib reg) (connection self) c d ?kw' ?w1") auto
  have present: "map_of (blobs (store w)) (c, d) \<noteq> None"
    using Cons.prems(2) by simp
  have r: "r = Inr ()"
    and s2: "blobs (store w2) = AList.delete (c, d) (blobs (store w))"
    using conn_delete_blob_result[OF del] present
    by (simp_all add: mem_lib_def mem_delete_blob_def store_emit)
  have eq: "delete_loop (mem_lib reg) self c kw (d # ds) w =
            delete_loop (mem_lib reg) self c kw ds w2"
    using k del r by (simp add: Let_def)
  have m2: "map_of (blobs (store w2)) = (map_of (blobs (store w)))((c, d) := None)"
    using s2 by (simp add: delete_conv')
  have "\<forall>x \<in> set ds. map_of (blobs (store w2)) (c, x) \<noteq> None"
    using Cons.prems m2 by auto
  with Cons.IH[of w2] Cons.prems(1) have
    ih: "fst (delete_loop (mem_lib reg) self c kw ds w2) = Inr ()"
      "map_of (blobs (store (snd (delete_loop (mem_lib reg) self c kw ds w2)))) =
         (\<lambda>k. if fst k = c \<and> snd k \<in> set ds then None else map_of (blobs (store w2)) k)"
    by simp_all
  show ?case
    unfolding eq using ih m2 by (auto simp: fun_eq_iff)
qed

lemma mem_blobs_to_delete_prefix:
  "fst (blobs_to_delete (mem_lib reg) self c p True Map.empty w) = Inr (names_under (store w) c p)"
  "store (snd (blobs_to_delete (mem_lib reg) self c p True Map.empty w)) = store w"
  by (simp_all add: blobs_to_delete_def conn_list_blobs_def Let_def mem_lib_def
        mem_list_blobs_def capped_def emit_def comp_def)

lemma mem_check_for_prefix:
  "fst (check_for_prefix (mem_lib reg) self c p Map.empty w) =
     Inr (names_under (store w) c p \<noteq> [])"
  by (cases "names_under (store w) c p")
     (simp_all add: check_for_prefix_def keyword_def conn_list_blobs_def Let_def mem_lib_def
        mem_list_blobs_def capped_def)









section \<open>The claims\<close>

text \<open>
  Claim C1. When the list \<^verbatim>\<open>blobs_to_delete\<close> that \<^verbatim>\<open>delete_file\<close> computes is empty,
  the call with \<^verbatim>\<open>ignore_if_missing=False\<close> raises the module's own exception, whose
  message names \<^verbatim>\<open>blob_name\<close>, and the call with \<^verbatim>\<open>ignore_if_missing=True\<close> returns.
  In both, the only thing done is the one request that computed the list (the listing,
  or the existence check made without keywords): the outside state is the one before
  the call, no \<^verbatim>\<open>delete_blob\<close> is called and nothing is logged.
\<close>

theorem delete_file_nothing_to_delete:
  assumes "blobs_to_delete L self c b is_prefix kw w = (Inr [], w1)"
  shows "delete_file L self c b is_prefix False kw w =
           (Inl (AirflowException (''Blob(s) not found: '' @ b)), w1)
       \<and> delete_file L self c b is_prefix True kw w = (Inr (), w1)
       \<and> store w1 = store w
       \<and> since w w1 =
           [Called (connection self)
              (if is_prefix then ListBlobs c b kw else Exists c b Map.empty) None]
       \<and> deletions (since w w1) = [] \<and> logs (since w w1) = []"
proof -
  have a: "delete_file L self c b is_prefix False kw w =
           (Inl (AirflowException (''Blob(s) not found: '' @ b)), w1)"
    and b: "delete_file L self c b is_prefix True kw w = (Inr (), w1)"
    using assms by (simp_all add: delete_file_def)
  have c: "store w1 = store w"
    using blobs_to_delete_store[of L self c b is_prefix kw w] assms by simp
  have d: "since w w1 =
           [Called (connection self)
              (if is_prefix then ListBlobs c b kw else Exists c b Map.empty) None]"
    using assms
    by (auto simp: blobs_to_delete_def check_for_blob_def conn_exists_def conn_list_blobs_def
          Let_def emit_def since_def raised_def split: option.splits sum.splits if_splits)
  show ?thesis using a b c d by (simp add: deletions_simps logs_simps)
qed

theorem delete_file_nothing_to_delete_witness:
  "fst (delete_file (mem_lib example_registry) example_hook ''c'' ''missing.txt'' False False
          Map.empty example_world) = Inl (AirflowException ''Blob(s) not found: missing.txt'')
   \<and> fst (delete_file (mem_lib example_registry) example_hook ''c'' ''missing.txt'' False True
          Map.empty example_world) = Inr ()
   \<and> store (snd (delete_file (mem_lib example_registry) example_hook ''c'' ''missing.txt'' False
          True Map.empty example_world)) = store example_world"
proof -
  have h: "blobs_to_delete (mem_lib example_registry) example_hook ''c'' ''missing.txt'' False
             Map.empty example_world =
           (Inr [], emit (Called ''account'' (Exists ''c'' ''missing.txt'' Map.empty) None)
                      example_world)"
    by (simp add: hook_defs mem_defs example_defs)
  show ?thesis
    using delete_file_nothing_to_delete[OF h] by (simp add: emit_def)
qed

text \<open>
  Claim C2. On the reference client, \<^verbatim>\<open>delete_file\<close> with \<^verbatim>\<open>is_prefix=True\<close> and no
  keywords leaves a storage account in which every blob of the container whose name
  starts with the prefix is absent and every other blob is stored as before (whether
  the call returned, or raised because nothing matched); \<^verbatim>\<open>check_for_prefix\<close> on the
  same container and prefix then returns \<^verbatim>\<open>False\<close>.
\<close>

theorem delete_file_prefix_removes_exactly_matching:
  "map_of (blobs (store (snd (delete_file (mem_lib reg) self c p True ign Map.empty w)))) =
     (\<lambda>k. if fst k = c \<and> prefix p (snd k) then None else map_of (blobs (store w)) k)
   \<and> fst (check_for_prefix (mem_lib reg) self c p Map.empty
            (snd (delete_file (mem_lib reg) self c p True ign Map.empty w))) = Inr False"
proof -
  let ?M = "mem_lib reg"
  let ?ds = "names_under (store w) c p"
  let ?w' = "snd (delete_file ?M self c p True ign Map.empty w)"
  obtain r w1 where btd: "blobs_to_delete ?M self c p True Map.empty w = (r, w1)"
    by (cases "blobs_to_delete ?M self c p True Map.empty w") auto
  have r: "r = Inr ?ds" and s1: "store w1 = store w"
    using mem_blobs_to_delete_prefix[of reg self c p w] btd by simp_all
  have gone: "map_of (blobs (store ?w')) =
     (\<lambda>k. if fst k = c \<and> snd k \<in> set ?ds then None else map_of (blobs (store w)) k)"
  proof (cases "\<not> ign \<and> length ?ds = 0")
    case True
    then have "?w' = w1"
      using btd r by (simp add: delete_file_def)
    then show ?thesis using True s1 by (simp add: fun_eq_iff)
  next
    case False
    then have eq: "delete_file ?M self c p True ign Map.empty w =
                   delete_loop ?M self c Map.empty ?ds w1"
      using btd r by (auto simp: delete_file_def)
    have "\<forall>d \<in> set ?ds. map_of (blobs (store w1)) (c, d) \<noteq> None"
      using s1 by (simp add: set_names_under)
    from mem_delete_loop[OF distinct_names_under this, of Map.empty reg self]
    have "map_of (blobs (store (snd (delete_loop ?M self c Map.empty ?ds w1)))) =
            (\<lambda>k. if fst k = c \<and> snd k \<in> set ?ds then None else map_of (blobs (store w1)) k)"
      by simp
    then show ?thesis by (simp only: eq s1)
  qed
  have a: "map_of (blobs (store ?w')) =
     (\<lambda>k. if fst k = c \<and> prefix p (snd k) then None else map_of (blobs (store w)) k)"
    unfolding gone by (auto simp: fun_eq_iff set_names_under)
  have "set (names_under (store ?w') c p) = {}"
    unfolding set_names_under a by simp
  then have b: "fst (check_for_prefix ?M self c p Map.empty ?w') = Inr False"
    by (simp add: mem_check_for_prefix)
  show ?thesis using a b by simp
qed

theorem delete_file_prefix_removes_exactly_matching_witness:
  "map_of (blobs (store (snd (delete_file (mem_lib example_registry) example_hook ''c'' ''a/''
      True False Map.empty example_world)))) (''c'', ''a/1.txt'') = None
   \<and> map_of (blobs (store (snd (delete_file (mem_lib example_registry) example_hook ''c'' ''a/''
      True False Map.empty example_world)))) (''c'', ''a/2.txt'') = None
   \<and> map_of (blobs (store (snd (delete_file (mem_lib example_registry) example_hook ''c'' ''a/''
      True False Map.empty example_world)))) (''c'', ''b.txt'') = Some ''other''
   \<and> fst (check_for_prefix (mem_lib example_registry) example_hook ''c'' ''a/'' Map.empty
        (snd (delete_file (mem_lib example_registry) example_hook ''c'' ''a/''
           True False Map.empty example_world))) = Inr False"
  using delete_file_prefix_removes_exactly_matching[of example_registry example_hook
    "''c''" "''a/''" False example_world]
  by (simp add: example_world_def)

text \<open>
  Claim C3. On the reference client, \<^verbatim>\<open>load_string\<close> of any string \<open>s\<close> (the empty one
  too) to a container and blob name returns, and \<^verbatim>\<open>read_file\<close> of the same container
  and blob name right after it returns exactly \<open>s\<close>.
\<close>

theorem load_string_read_file_roundtrip:
  "fst (load_string (mem_lib reg) self s c b Map.empty w) = Inr ()
   \<and> fst (read_file (mem_lib reg) self c b Map.empty
            (snd (load_string (mem_lib reg) self s c b Map.empty w))) = Inr s"
  by (simp add: load_string_def read_file_def conn_create_blob_from_text_def
        conn_get_blob_to_text_def mem_lib_def mem_create_blob_from_text_def
        mem_get_blob_to_text_def emit_def Let_def update_conv' split: prod.splits)

theorem load_string_read_file_roundtrip_witness:
  "fst (read_file (mem_lib example_registry) example_hook ''c'' ''a/1.txt'' Map.empty
          (snd (load_string (mem_lib example_registry) example_hook ''hello'' ''c'' ''a/1.txt''
             Map.empty (fresh Map.empty)))) = Inr ''hello''
   \<and> fst (read_file (mem_lib example_registry) example_hook ''c'' ''e'' Map.empty
          (snd (load_string (mem_lib example_registry) example_hook [] ''c'' ''e''
             Map.empty example_world))) = Inr []"
  using load_string_read_file_roundtrip[of example_registry example_hook "''hello''" "''c''"
      "''a/1.txt''" "fresh Map.empty"]
    load_string_read_file_roundtrip[of example_registry example_hook "[]" "''c''" "''e''"
      example_world]
  by simp

text \<open>
  Claim C4. Let the client's listing honour the result-count cap at this container and
  prefix: with \<^verbatim>\<open>num_results=k\<close> it yields the first \<open>k\<close> entries of the listing made
  without a cap (and fails when that one fails), for \<open>k = 1\<close> and for a cap \<open>n \<ge> 1\<close>.
  Then \<^verbatim>\<open>check_for_prefix\<close> returns \<^verbatim>\<open>True\<close> exactly when \<^verbatim>\<open>get_blobs_list\<close> yields
  a non-empty sequence, without a cap and with the cap \<open>n\<close>.
\<close>

theorem check_for_prefix_iff_listing_nonempty:
  assumes "list_blobs L (connection self) (store w) c p [''num_results'' \<mapsto> PyInt 1] =
             map_sum id (take 1) (list_blobs L (connection self) (store w) c p Map.empty)"
      and "1 \<le> n"
      and "list_blobs L (connection self) (store w) c p [''num_results'' \<mapsto> PyInt n] =
             map_sum id (take (nat n)) (list_blobs L (connection self) (store w) c p Map.empty)"
  shows "((fst (check_for_prefix L self c p Map.empty w) = Inr True) =
            (\<exists>bs. fst (get_blobs_list L self c p Map.empty w) = Inr bs \<and> bs \<noteq> []))
       \<and> ((fst (check_for_prefix L self c p Map.empty w) = Inr True) =
            (\<exists>bs. fst (get_blobs_list L self c p [''num_results'' \<mapsto> PyInt n] w) = Inr bs
                  \<and> bs \<noteq> []))"
proof -
  have nz: "take (nat n) xs \<noteq> [] \<longleftrightarrow> xs \<noteq> []" for xs :: "Blob list"
    using assms(2) by (cases xs) auto
  have one: "take (Suc 0) xs \<noteq> [] \<longleftrightarrow> xs \<noteq> []" for xs :: "Blob list"
    by (cases xs) auto
  show ?thesis
    using assms
    by (cases "list_blobs L (connection self) (store w) c p Map.empty")
       (auto simp: check_for_prefix_def get_blobs_list_def conn_list_blobs_def keyword_def
          Let_def nz one)
qed

theorem check_for_prefix_iff_listing_nonempty_witness:
  "fst (check_for_prefix (mem_lib example_registry) example_hook ''c'' ''a/'' Map.empty
          example_world) = Inr True
   \<and> (\<exists>bs. fst (get_blobs_list (mem_lib example_registry) example_hook ''c'' ''a/''
                 [''num_results'' \<mapsto> PyInt 2] example_world) = Inr bs \<and> bs \<noteq> [])
   \<and> fst (check_for_prefix (mem_lib example_registry) example_hook ''c'' ''z'' Map.empty
          example_world) = Inr False
   \<and> fst (get_blobs_list (mem_lib example_registry) example_hook ''c'' ''z'' Map.empty
          example_world) = Inr []"
proof -
  let ?L = "mem_lib example_registry"
  have h1: "list_blobs ?L (connection example_hook) (store example_world) ''c'' ''a/''
              [''num_results'' \<mapsto> PyInt 1] =
            map_sum id (take 1) (list_blobs ?L (connection example_hook) (store example_world)
              ''c'' ''a/'' Map.empty)"
    by (simp add: mem_defs example_defs)
  have h2: "(1::int) \<le> 2" by simp
  have h3: "list_blobs ?L (connection example_hook) (store example_world) ''c'' ''a/''
              [''num_results'' \<mapsto> PyInt 2] =
            map_sum id (take (nat 2)) (list_blobs ?L (connection example_hook)
              (store example_world) ''c'' ''a/'' Map.empty)"
    by (simp add: mem_defs example_defs)
  have a: "fst (check_for_prefix ?L example_hook ''c'' ''a/'' Map.empty example_world) = Inr True"
    by (simp add: hook_defs mem_defs example_defs)
  have z: "fst (check_for_prefix ?L example_hook ''c'' ''z'' Map.empty example_world) = Inr False"
      "fst (get_blobs_list ?L example_hook ''c'' ''z'' Map.empty example_world) = Inr []"
    by (simp_all add: hook_defs mem_defs example_defs)
  show ?thesis
    using check_for_prefix_iff_listing_nonempty[OF h1 h2 h3] a z by simp
qed



text \<open>
  Claim C6. Let the list to delete be \<open>pre @ d # post\<close>, let the loop return on
  \<open>pre\<close>, and let the \<^verbatim>\<open>delete_blob\<close> call for \<open>d\<close> raise \<open>e\<close>. Then
  \<^verbatim>\<open>delete_file\<close> raises exactly \<open>e\<close>; the \<^verbatim>\<open>delete_blob\<close> calls made since the list
  was computed are those for \<open>pre\<close> and then \<open>d\<close>, in this order, and none for
  \<open>post\<close>; and the outside state it leaves is the one the failing call left after the
  deletions of \<open>pre\<close>: nothing is undone.
\<close>

theorem delete_file_stops_at_failure:
  assumes "blobs_to_delete L self c b is_prefix kw w = (Inr (pre @ d # post), w1)"
      and "delete_loop L self c kw pre w1 = (Inr (), w2)"
      and "keyword ''delete_snapshots'' (PyStr ''include'') kw = Inr kw'"
      and "conn_delete_blob L (connection self) c d kw' (emit (LogInfo (deleting d)) w2)
             = (Inl e, w3)"
  shows "delete_file L self c b is_prefix ign kw w = (Inl e, w3)
       \<and> map (\<lambda>x. fst (snd x)) (deletions (since w1 w3)) = pre @ [d]
       \<and> store w3 = snd (delete_blob L (connection self) (store w2) c d kw')"
proof -
  have step: "delete_loop L self c kw (d # post) w2 = (Inl e, w3)"
    using assms(3,4) by (simp add: Let_def)
  have loop: "delete_loop L self c kw (pre @ d # post) w1 = (Inl e, w3)"
    using assms(2) step by (simp add: delete_loop_append)
  have a: "delete_file L self c b is_prefix ign kw w = (Inl e, w3)"
    using assms(1) loop by (simp add: delete_file_def)
  from delete_loop_events[of L self c kw pre w1] assms(2) have
    tr2: "trace w2 = trace w1 @ concat (map (\<lambda>d. [LogInfo (deleting d),
                     Called (connection self) (DeleteBlob c d (included kw)) None]) pre)"
    by auto
  have tr3: "trace w3 = trace w2 @ [LogInfo (deleting d),
               Called (connection self) (DeleteBlob c d kw') (Some e)]"
    using conn_delete_blob_result[OF assms(4)] by (simp add: trace_emit raised_def)
  have dels: "deletions (concat (map (\<lambda>d. [LogInfo (deleting d),
                     Called h (DeleteBlob c d k) None]) xs)) = map (\<lambda>d. (c, d, k)) xs"
    for h k xs
    by (induction xs) (simp_all add: deletions_simps)
  have b: "map (\<lambda>x. fst (snd x)) (deletions (since w1 w3)) = pre @ [d]"
    using tr2 tr3 by (simp add: since_def deletions_append deletions_simps dels comp_def)
  have c: "store w3 = snd (delete_blob L (connection self) (store w2) c d kw')"
    using conn_delete_blob_result[OF assms(4)] by (simp add: store_emit)
  show ?thesis using a b c by simp
qed

theorem delete_file_stops_at_failure_witness:
  "fst (delete_file (leased_lib ''a/2.txt'') example_hook ''c'' ''a/'' True False Map.empty
          example_world) = Inl (SdkError ''There is currently a lease on the blob'')
   \<and> map fst (blobs (store (snd (delete_file (leased_lib ''a/2.txt'') example_hook ''c'' ''a/''
          True False Map.empty example_world)))) = [(''c'', ''a/2.txt''), (''c'', ''b.txt'')]"
proof -
  let ?L = "leased_lib ''a/2.txt''"
  let ?kw' = "[''delete_snapshots'' \<mapsto> PyStr ''include'']"
  let ?w1 = "emit (Called ''account'' (ListBlobs ''c'' ''a/'' Map.empty) None) example_world"
  let ?w2 = "snd (delete_loop ?L example_hook ''c'' Map.empty [''a/1.txt''] ?w1)"
  let ?w3 = "snd (conn_delete_blob ?L (connection example_hook) ''c'' ''a/2.txt'' ?kw'
                (emit (LogInfo (deleting ''a/2.txt'')) ?w2))"
  have h1: "blobs_to_delete ?L example_hook ''c'' ''a/'' True Map.empty example_world =
             (Inr ([''a/1.txt''] @ ''a/2.txt'' # []), ?w1)"
    by (simp add: hook_defs mem_defs example_defs leased_lib_def)
  have h2: "delete_loop ?L example_hook ''c'' Map.empty [''a/1.txt''] ?w1 = (Inr (), ?w2)"
    by (simp add: hook_defs mem_defs example_defs leased_lib_def)
  have h3: "keyword ''delete_snapshots'' (PyStr ''include'') Map.empty = Inr ?kw'"
    by (simp add: keyword_def)
  have h4: "conn_delete_blob ?L (connection example_hook) ''c'' ''a/2.txt'' ?kw'
              (emit (LogInfo (deleting ''a/2.txt'')) ?w2) =
            (Inl (SdkError ''There is currently a lease on the blob''), ?w3)"
    by (simp add: hook_defs mem_defs example_defs leased_lib_def)
  have w3: "map fst (blobs (store ?w3)) = [(''c'', ''a/2.txt''), (''c'', ''b.txt'')]"
    by (simp add: hook_defs mem_defs example_defs leased_lib_def AList.delete_eq)
  show ?thesis
    using delete_file_stops_at_failure[OF h1 h2 h3 h4, of False] w3 by simp
qed

text \<open>
  Claim C7. Whatever the arguments of \<^verbatim>\<open>delete_file\<close>, every \<^verbatim>\<open>delete_blob\<close> call it
  makes receives \<^verbatim>\<open>delete_snapshots='include'\<close>. The caller cannot choose another mode
  through \<^verbatim>\<open>**kwargs\<close>: when the keywords have the key \<^verbatim>\<open>delete_snapshots\<close>, no
  \<^verbatim>\<open>delete_blob\<close> call is made at all (the call expression raises \<^verbatim>\<open>TypeError\<close>).
\<close>

theorem delete_file_snapshots_include:
  "(\<forall>x \<in> set (deletions (since w (snd (delete_file L self c b is_prefix ign kw w)))).
        snd (snd x) ''delete_snapshots'' = Some (PyStr ''include''))
   \<and> (kw ''delete_snapshots'' \<noteq> None \<longrightarrow>
        deletions (since w (snd (delete_file L self c b is_prefix ign kw w))) = [])"
proof -
  from delete_file_events[of L self c b is_prefix ign kw w] obtain evs where
    evs: "trace (snd (delete_file L self c b is_prefix ign kw w)) = trace w @ evs"
      "list_all (\<lambda>x. fst x = c \<and> snd (snd x) = included kw) (deletions evs)"
      "kw ''delete_snapshots'' \<noteq> None \<longrightarrow> deletions evs = []"
    by blast
  have s: "since w (snd (delete_file L self c b is_prefix ign kw w)) = evs"
    using evs(1) by (rule since_append)
  have a: "\<forall>x \<in> set (deletions evs). snd (snd x) ''delete_snapshots'' = Some (PyStr ''include'')"
    using evs(2) by (auto simp: list_all_iff included_def)
  show ?thesis using a evs(3) s by simp
qed

theorem delete_file_snapshots_include_witness:
  "deletions (since example_world (snd (delete_file (mem_lib example_registry) example_hook
      ''c'' ''b.txt'' False False [''timeout'' \<mapsto> PyInt 5] example_world))) =
     [(''c'', ''b.txt'', [''timeout'' \<mapsto> PyInt 5, ''delete_snapshots'' \<mapsto> PyStr ''include''])]
   \<and> [''timeout'' \<mapsto> PyInt 5, ''delete_snapshots'' \<mapsto> PyStr ''include''] ''delete_snapshots''
       = Some (PyStr ''include'')
   \<and> deletions (since example_world (snd (delete_file (mem_lib example_registry) example_hook
      ''c'' ''b.txt'' False False [''delete_snapshots'' \<mapsto> PyStr ''only''] example_world))) = []"
proof -
  have a: "deletions (since example_world (snd (delete_file (mem_lib example_registry)
      example_hook ''c'' ''b.txt'' False False [''timeout'' \<mapsto> PyInt 5] example_world))) =
     [(''c'', ''b.txt'', [''timeout'' \<mapsto> PyInt 5, ''delete_snapshots'' \<mapsto> PyStr ''include''])]"
    by (simp add: hook_defs mem_defs example_defs deletions_simps)
  have b: "[''delete_snapshots'' \<mapsto> PyStr ''only''] ''delete_snapshots'' \<noteq> None"
    by simp
  show ?thesis
    using a b
      delete_file_snapshots_include[of example_world "mem_lib example_registry" example_hook
        "''c''" "''b.txt''" False False "[''timeout'' \<mapsto> PyInt 5]"]
      delete_file_snapshots_include[of example_world "mem_lib example_registry" example_hook
        "''c''" "''b.txt''" False False "[''delete_snapshots'' \<mapsto> PyStr ''only'']"]
    by simp
qed

text \<open>
  Claim C8, as amended. Once the list \<open>ds\<close> to delete is computed, \<^verbatim>\<open>delete_file\<close>
  goes through \<open>ds\<close> in order; for each entry it reaches it emits exactly one info
  record \<^verbatim>\<open>Deleting blob: <name>\<close> and only then calls \<^verbatim>\<open>delete_blob\<close> for it, so no
  deletion is made without its own record immediately before it. When \<^verbatim>\<open>delete_file\<close>
  returns, every entry of \<open>ds\<close> was reached: the events are exactly one record and
  then one call per entry. When it raises, either \<open>ds\<close> is empty and nothing was
  logged, or \<open>ds = pre @ d # post\<close> where the entries of \<open>pre\<close> have their record and
  call, \<open>d\<close> has its record and at most the call that raised, and the entries of
  \<open>post\<close> have neither.
\<close>

theorem delete_file_logs_before_deleting:
  assumes "blobs_to_delete L self c b is_prefix kw w = (Inr ds, w1)"
  shows "logged_first ds (since w1 (snd (delete_file L self c b is_prefix ign kw w)))
       \<and> (fst (delete_file L self c b is_prefix ign kw w) = Inr () \<longrightarrow>
            since w1 (snd (delete_file L self c b is_prefix ign kw w)) =
              concat (map (\<lambda>d. [LogInfo (deleting d),
                Called (connection self)
                  (DeleteBlob c d (kw(''delete_snapshots'' \<mapsto> PyStr ''include''))) None]) ds))
       \<and> (fst (delete_file L self c b is_prefix ign kw w) = Inl e \<longrightarrow>
            (ds = [] \<and> since w1 (snd (delete_file L self c b is_prefix ign kw w)) = [])
            \<or> (\<exists>pre d post. ds = pre @ d # post \<and>
                 (since w1 (snd (delete_file L self c b is_prefix ign kw w)) =
                    logged_deletions (connection self) c kw pre @ [LogInfo (deleting d)]
                  \<or> since w1 (snd (delete_file L self c b is_prefix ign kw w)) =
                    logged_deletions (connection self) c kw pre @
                      [LogInfo (deleting d),
                       Called (connection self)
                         (DeleteBlob c d (kw(''delete_snapshots'' \<mapsto> PyStr ''include'')))
                         (Some e)])))"
proof (cases "\<not> ign \<and> length ds = 0")
  case True
  then have "delete_file L self c b is_prefix ign kw w =
      (Inl (AirflowException (''Blob(s) not found: '' @ b)), w1)"
    using assms by (simp add: delete_file_def)
  then show ?thesis using True by (simp add: since_self)
next
  case False
  then have eq: "delete_file L self c b is_prefix ign kw w = delete_loop L self c kw ds w1"
    using assms by (auto simp add: delete_file_def)
  from delete_loop_events[of L self c kw ds w1] obtain evs where
    evs: "trace (snd (delete_loop L self c kw ds w1)) = trace w1 @ evs"
      "logged_first ds evs"
      "fst (delete_loop L self c kw ds w1) = Inr () \<longrightarrow>
         evs = concat (map (\<lambda>d. [LogInfo (deleting d),
                  Called (connection self) (DeleteBlob c d (included kw)) None]) ds)"
    by blast
  have s: "since w1 (snd (delete_loop L self c kw ds w1)) = evs"
    using evs(1) by (rule since_append)
  have a: "logged_first ds (since w1 (snd (delete_file L self c b is_prefix ign kw w)))"
    unfolding eq using s evs(2) by simp
  have b: "fst (delete_file L self c b is_prefix ign kw w) = Inr () \<longrightarrow>
            since w1 (snd (delete_file L self c b is_prefix ign kw w)) =
              concat (map (\<lambda>d. [LogInfo (deleting d),
                Called (connection self)
                  (DeleteBlob c d (kw(''delete_snapshots'' \<mapsto> PyStr ''include''))) None]) ds)"
    unfolding eq using s evs(3) by (simp add: included_def)
  have c: "\<exists>pre d post. ds = pre @ d # post \<and>
                 (since w1 (snd (delete_file L self c b is_prefix ign kw w)) =
                    logged_deletions (connection self) c kw pre @ [LogInfo (deleting d)]
                  \<or> since w1 (snd (delete_file L self c b is_prefix ign kw w)) =
                    logged_deletions (connection self) c kw pre @
                      [LogInfo (deleting d),
                       Called (connection self)
                         (DeleteBlob c d (kw(''delete_snapshots'' \<mapsto> PyStr ''include'')))
                         (Some e)])"
    if "fst (delete_file L self c b is_prefix ign kw w) = Inl e"
  proof -
    from that have "fst (delete_loop L self c kw ds w1) = Inl e"
      unfolding eq .
    from delete_loop_raises[OF this] obtain pre d post where
      ds: "ds = pre @ d # post"
      and t: "trace (snd (delete_loop L self c kw ds w1)) =
              trace w1 @ logged_deletions (connection self) c kw pre @ [LogInfo (deleting d)]
            \<or> trace (snd (delete_loop L self c kw ds w1)) =
              trace w1 @ logged_deletions (connection self) c kw pre @
                [LogInfo (deleting d),
                 Called (connection self)
                   (DeleteBlob c d (kw(''delete_snapshots'' \<mapsto> PyStr ''include''))) (Some e)]"
      by blast
    from t have "since w1 (snd (delete_loop L self c kw ds w1)) =
                    logged_deletions (connection self) c kw pre @ [LogInfo (deleting d)]
                  \<or> since w1 (snd (delete_loop L self c kw ds w1)) =
                    logged_deletions (connection self) c kw pre @
                      [LogInfo (deleting d),
                       Called (connection self)
                         (DeleteBlob c d (kw(''delete_snapshots'' \<mapsto> PyStr ''include'')))
                         (Some e)]"
      by (auto simp: since_def)
    then show ?thesis
      unfolding eq using ds by blast
  qed
  show ?thesis using a b c by blast
qed

theorem delete_file_logs_before_deleting_witness:
  "logs (since example_world (snd (delete_file (mem_lib example_registry) example_hook
      ''c'' ''a/'' True False Map.empty example_world))) =
     [''Deleting blob: a/1.txt'', ''Deleting blob: a/2.txt'']
   \<and> map (\<lambda>x. fst (snd x)) (deletions (since example_world (snd (delete_file
      (mem_lib example_registry) example_hook ''c'' ''a/'' True False Map.empty example_world))))
       = [''a/1.txt'', ''a/2.txt'']"
proof -
  let ?L = "mem_lib example_registry"
  let ?w1 = "emit (Called ''account'' (ListBlobs ''c'' ''a/'' Map.empty) None) example_world"
  let ?w' = "snd (delete_file ?L example_hook ''c'' ''a/'' True False Map.empty example_world)"
  have h: "blobs_to_delete ?L example_hook ''c'' ''a/'' True Map.empty example_world =
             (Inr [''a/1.txt'', ''a/2.txt''], ?w1)"
    by (simp add: hook_defs mem_defs example_defs)
  have ok: "fst (delete_file ?L example_hook ''c'' ''a/'' True False Map.empty example_world)
              = Inr ()"
    by (simp add: hook_defs mem_defs example_defs AList.delete_eq)
  have tr: "trace ?w' = trace ?w1 @ since ?w1 ?w'"
    by (simp add: hook_defs mem_defs example_defs AList.delete_eq)
  have "since example_world ?w' =
          Called ''account'' (ListBlobs ''c'' ''a/'' Map.empty) None # since ?w1 ?w'"
    using tr by (simp add: since_def emit_def example_world_def)
  then show ?thesis
    using delete_file_logs_before_deleting[OF h, of False] ok
    by (simp add: logs_simps deletions_simps deleting_def example_hook_def)
qed

text \<open>
  The unamended statement, that every blob of the list gets exactly one record, does
  not hold when a deletion raises. On the client that refuses to delete \<open>a/1.txt\<close>,
  the list for the prefix \<open>a/\<close> is \<open>a/1.txt\<close>, \<open>a/2.txt\<close>; the first deletion raises,
  and no record names \<open>a/2.txt\<close>.
\<close>

theorem delete_file_logs_before_deleting_counterexample:
  "fst (blobs_to_delete (leased_lib ''a/1.txt'') example_hook ''c'' ''a/'' True Map.empty
          example_world) = Inr [''a/1.txt'', ''a/2.txt'']
   \<and> fst (delete_file (leased_lib ''a/1.txt'') example_hook ''c'' ''a/'' True False Map.empty
          example_world) = Inl (SdkError ''There is currently a lease on the blob'')
   \<and> logs (since example_world (snd (delete_file (leased_lib ''a/1.txt'') example_hook ''c''
          ''a/'' True False Map.empty example_world))) = [''Deleting blob: a/1.txt'']
   \<and> \<not> (\<forall>d \<in> set [''a/1.txt'', ''a/2.txt''].
          count_list (logs (since example_world (snd (delete_file (leased_lib ''a/1.txt'')
            example_hook ''c'' ''a/'' True False Map.empty example_world)))) (deleting d) = 1)"
proof -
  have a: "fst (blobs_to_delete (leased_lib ''a/1.txt'') example_hook ''c'' ''a/'' True Map.empty
          example_world) = Inr [''a/1.txt'', ''a/2.txt'']"
    by (simp add: hook_defs mem_defs example_defs leased_lib_def)
  have b: "fst (delete_file (leased_lib ''a/1.txt'') example_hook ''c'' ''a/'' True False Map.empty
          example_world) = Inl (SdkError ''There is currently a lease on the blob'')"
    by (simp add: hook_defs mem_defs example_defs leased_lib_def)
  have c: "logs (since example_world (snd (delete_file (leased_lib ''a/1.txt'') example_hook ''c''
          ''a/'' True False Map.empty example_world))) = [''Deleting blob: a/1.txt'']"
    by (simp add: hook_defs mem_defs example_defs leased_lib_def logs_simps)
  show ?thesis
    unfolding c using a b by (simp add: deleting_def)
qed



text \<open>
  Claim C10. Without \<^verbatim>\<open>is_prefix\<close>, the list to delete does not depend on the caller's
  keywords: it is decided by \<^verbatim>\<open>check_for_blob\<close> called with no keywords, and the one
  request made is \<^verbatim>\<open>exists\<close> with no keywords. The same keywords do reach every
  \<^verbatim>\<open>delete_blob\<close> call of the operation, together with \<^verbatim>\<open>delete_snapshots\<close>.
\<close>

theorem delete_file_checks_existence_without_kwargs:
  "blobs_to_delete L self c b False kw w = blobs_to_delete L self c b False Map.empty w
   \<and> fst (blobs_to_delete L self c b False kw w) =
       map_sum id (\<lambda>found. if found then [b] else []) (fst (check_for_blob L self c b Map.empty w))
   \<and> since w (snd (blobs_to_delete L self c b False kw w)) =
       [Called (connection self) (Exists c b Map.empty)
          (raised (exists L (connection self) (store w) c b Map.empty))]
   \<and> (\<forall>x \<in> set (deletions (since w (snd (delete_file L self c b False ign kw w)))).
        snd (snd x) = kw(''delete_snapshots'' \<mapsto> PyStr ''include''))"
proof -
  have a: "blobs_to_delete L self c b False kw w = blobs_to_delete L self c b False Map.empty w"
    by (simp add: blobs_to_delete_def)
  have b: "fst (blobs_to_delete L self c b False kw w) =
       map_sum id (\<lambda>found. if found then [b] else []) (fst (check_for_blob L self c b Map.empty w))"
    by (simp add: blobs_to_delete_def split: prod.splits sum.splits)
  have c: "since w (snd (blobs_to_delete L self c b False kw w)) =
       [Called (connection self) (Exists c b Map.empty)
          (raised (exists L (connection self) (store w) c b Map.empty))]"
    by (simp add: blobs_to_delete_def check_for_blob_def conn_exists_def Let_def since_def
          emit_def split: sum.splits)
  from delete_file_events[of L self c b False ign kw w] obtain evs where
    evs: "trace (snd (delete_file L self c b False ign kw w)) = trace w @ evs"
      "list_all (\<lambda>x. fst x = c \<and> snd (snd x) = included kw) (deletions evs)"
    by blast
  have "since w (snd (delete_file L self c b False ign kw w)) = evs"
    using evs(1) by (rule since_append)
  then have d: "\<forall>x \<in> set (deletions (since w (snd (delete_file L self c b False ign kw w)))).
        snd (snd x) = kw(''delete_snapshots'' \<mapsto> PyStr ''include'')"
    using evs(2) by (simp add: list_all_iff included_def)
  show ?thesis using a b c d by blast
qed

theorem delete_file_checks_existence_without_kwargs_witness:
  "since example_world (snd (delete_file (mem_lib example_registry) example_hook ''c'' ''b.txt''
      False False [''timeout'' \<mapsto> PyInt 5] example_world)) =
     [Called ''account'' (Exists ''c'' ''b.txt'' Map.empty) None,
      LogInfo ''Deleting blob: b.txt'',
      Called ''account'' (DeleteBlob ''c'' ''b.txt''
        [''timeout'' \<mapsto> PyInt 5, ''delete_snapshots'' \<mapsto> PyStr ''include'']) None]
   \<and> blobs_to_delete (mem_lib example_registry) example_hook ''c'' ''b.txt'' False
        [''timeout'' \<mapsto> PyInt 5] example_world =
       blobs_to_delete (mem_lib example_registry) example_hook ''c'' ''b.txt'' False
        Map.empty example_world"
proof -
  have a: "since example_world (snd (delete_file (mem_lib example_registry) example_hook ''c''
      ''b.txt'' False False [''timeout'' \<mapsto> PyInt 5] example_world)) =
     [Called ''account'' (Exists ''c'' ''b.txt'' Map.empty) None,
      LogInfo ''Deleting blob: b.txt'',
      Called ''account'' (DeleteBlob ''c'' ''b.txt''
        [''timeout'' \<mapsto> PyInt 5, ''delete_snapshots'' \<mapsto> PyStr ''include'']) None]"
    by (simp add: hook_defs mem_defs example_defs)
  show ?thesis
    using a delete_file_checks_existence_without_kwargs[of "mem_lib example_registry"
      example_hook "''c''" "''b.txt''" "[''timeout'' \<mapsto> PyInt 5]" example_world False]
    by simp
qed

end
